theory Spec2Isabelle
  imports Main "HOL-Library.AList"
begin

section \<open>The file system seen by \<^verbatim>\<open>compare_dirs.py\<close>\<close>

text \<open>
  The script works on two directory trees, \<^verbatim>\<open>./directory1\<close> and \<^verbatim>\<open>./directory2\<close>.
  A tree node is a regular file (its bytes together with the metadata that
  \<^verbatim>\<open>shutil.copy2\<close> carries over), a directory (its entries in listing order) or a
  symbolic link. A link holds what it resolves to: \<open>None\<close> when it dangles. Link
  targets lie outside the two trees, and different links have different targets, so
  that a change under one tree does not change what another link resolves to. A
  link whose target lies inside \<^verbatim>\<open>./directory1\<close> or \<^verbatim>\<open>./directory2\<close> is not
  represented: removing or creating its target would change what it resolves to,
  and a value of this type cannot change with another entry. Where the result of
  a run that clears and copies would depend on such a link, the theorem is stated
  for trees in which the script meets no link (\<open>source_plain\<close>, \<open>dest_plain\<close>
  below). A directory names each of its entries once; in a list that repeats a
  name, the name denotes the first entry.
\<close>

datatype node =
    File string
  | Dir "(string \<times> node) list"
  | Symlink "node option"

type_synonym entries = "(string \<times> node) list"

text \<open>
  The state: what each of the two fixed paths names (\<open>None\<close>: nothing there) and the
  lines printed so far.
\<close>

record fs =
  directory1 :: "node option"
  directory2 :: "node option"
  stdout :: "string list"

text \<open>The exceptions the library calls of the script raise.\<close>

datatype error =
    FileNotFoundError
  | NotADirectoryError
  | IsADirectoryError
  | FileExistsError
  | OSError
  | ShutilError

text \<open>
  A call returns \<open>Inr\<close> the new state, or \<open>Inl\<close> the exception raised together
  with the state it leaves behind: nothing is rolled back.
\<close>

type_synonym 'a result = "(error \<times> 'a) + 'a"


section \<open>The library calls\<close>

text \<open>Following symbolic links, as \<^verbatim>\<open>os.stat\<close> does.\<close>

fun resolve :: "node \<Rightarrow> node option" where
  "resolve (File c) = Some (File c)"
| "resolve (Dir es) = Some (Dir es)"
| "resolve (Symlink None) = None"
| "resolve (Symlink (Some t)) = resolve t"

text \<open>
  \<^verbatim>\<open>os.path.exists(s)\<close> and \<^verbatim>\<open>os.path.isdir(s)\<close>, on what \<^verbatim>\<open>s\<close> names
  (\<open>None\<close>: no such entry). Both follow links, and both answer False for a
  dangling link.
\<close>

definition path_exists :: "node option \<Rightarrow> bool" where
  "path_exists s = (case s of None \<Rightarrow> False | Some n \<Rightarrow> resolve n \<noteq> None)"

definition path_isdir :: "node option \<Rightarrow> bool" where
  "path_isdir s =
     (case s of
        None \<Rightarrow> False
      | Some n \<Rightarrow> (case resolve n of Some (Dir es) \<Rightarrow> True | _ \<Rightarrow> False))"

text \<open>\<^verbatim>\<open>os.listdir(path)\<close>: the names in a directory, in listing order.\<close>

definition listdir :: "node option \<Rightarrow> error + string list" where
  "listdir p =
     (case p of
        None \<Rightarrow> Inl FileNotFoundError
      | Some n \<Rightarrow>
          (case resolve n of
             None \<Rightarrow> Inl FileNotFoundError
           | Some (Dir es) \<Rightarrow> Inr (map fst es)
           | Some _ \<Rightarrow> Inl NotADirectoryError))"

text \<open>
  \<^verbatim>\<open>filecmp.dircmp(a, b).left_only\<close>: the names listed in \<^verbatim>\<open>a\<close> and not in
  \<^verbatim>\<open>b\<close>, both listings first filtered by \<^verbatim>\<open>hide\<close> (\<^verbatim>\<open>os.curdir\<close>,
  \<^verbatim>\<open>os.pardir\<close>) and \<^verbatim>\<open>ignore\<close>, which the script leaves at
  \<^verbatim>\<open>filecmp.DEFAULT_IGNORES\<close>. The library sorts the listings; the script only
  tests the result for emptiness, so the order is left as listed.
\<close>

definition DEFAULT_IGNORES :: "string list" where
  "DEFAULT_IGNORES =
     [''RCS'', ''CVS'', ''tags'', ''.git'', ''.hg'', ''.bzr'', ''_darcs'', ''__pycache__'']"

definition dircmp_hide :: "string list" where
  "dircmp_hide = [''.'', ''..'']"

definition dircmp_filter :: "string list \<Rightarrow> string list \<Rightarrow> string list" where
  "dircmp_filter flist skip = filter (\<lambda>x. x \<notin> set skip) flist"

definition dircmp_left_only :: "node option \<Rightarrow> node option \<Rightarrow> error + string list" where
  "dircmp_left_only a b =
     (case listdir a of
        Inl e \<Rightarrow> Inl e
      | Inr l \<Rightarrow>
          (case listdir b of
             Inl e \<Rightarrow> Inl e
           | Inr r \<Rightarrow>
               (let left_list = dircmp_filter l (dircmp_hide @ DEFAULT_IGNORES);
                    right_list = dircmp_filter r (dircmp_hide @ DEFAULT_IGNORES)
                in Inr (filter (\<lambda>x. x \<notin> set right_list) left_list))))"

text \<open>
  \<^verbatim>\<open>shutil.rmtree(s)\<close> and \<^verbatim>\<open>os.remove(s)\<close> on the entry \<^verbatim>\<open>item\<close> of a
  directory with entries \<open>es\<close>. \<^verbatim>\<open>rmtree\<close> refuses a symbolic link, also one to
  a directory; \<^verbatim>\<open>os.remove\<close> unlinks a file or a link and refuses a directory.
\<close>

definition shutil_rmtree :: "string \<Rightarrow> entries \<Rightarrow> error + entries" where
  "shutil_rmtree item es =
     (case map_of es item of
        None \<Rightarrow> Inl FileNotFoundError
      | Some (Dir sub) \<Rightarrow> Inr (AList.delete item es)
      | Some (Symlink t) \<Rightarrow> Inl OSError
      | Some (File c) \<Rightarrow> Inl NotADirectoryError)"

definition os_remove :: "string \<Rightarrow> entries \<Rightarrow> error + entries" where
  "os_remove item es =
     (case map_of es item of
        None \<Rightarrow> Inl FileNotFoundError
      | Some (Dir sub) \<Rightarrow> Inl IsADirectoryError
      | Some _ \<Rightarrow> Inr (AList.delete item es))"

text \<open>
  What \<^verbatim>\<open>shutil.copytree(s, d, symlinks=False)\<close> writes for one source node: links
  are followed, so a link to a file is copied as a file and a link to a directory as
  a directory. An entry that is a dangling link cannot be copied: the library skips
  it, goes on with the other entries and raises \<^verbatim>\<open>shutil.Error\<close> at the end.
\<close>

fun copy_node :: "node \<Rightarrow> node option"
  and copy_entries :: "entries \<Rightarrow> entries" where
  "copy_node (File c) = Some (File c)"
| "copy_node (Dir es) = Some (Dir (copy_entries es))"
| "copy_node (Symlink None) = None"
| "copy_node (Symlink (Some t)) = copy_node t"
| "copy_entries [] = []"
| "copy_entries ((name, x) # es) =
     (case copy_node x of
        None \<Rightarrow> copy_entries es
      | Some y \<Rightarrow> (name, y) # copy_entries es)"

fun dangling :: "node \<Rightarrow> bool"
  and dangling_entries :: "entries \<Rightarrow> bool" where
  "dangling (File c) = False"
| "dangling (Dir es) = dangling_entries es"
| "dangling (Symlink None) = True"
| "dangling (Symlink (Some t)) = dangling t"
| "dangling_entries [] = False"
| "dangling_entries ((name, x) # es) = (dangling x \<or> dangling_entries es)"

text \<open>
  \<^verbatim>\<open>shutil.copytree(s, d, symlinks, ignore)\<close> with the defaults the script passes
  (\<^verbatim>\<open>symlinks=False\<close>, \<^verbatim>\<open>ignore=None\<close>), where \<^verbatim>\<open>d\<close> is the entry
  \<^verbatim>\<open>item\<close> of a directory with entries \<open>dst\<close>. The source is scanned first, then
  \<^verbatim>\<open>os.makedirs(d)\<close> refuses a name that is already there (also a dangling link).
\<close>

definition shutil_copytree :: "node option \<Rightarrow> string \<Rightarrow> entries \<Rightarrow> entries result" where
  "shutil_copytree s item dst =
     (case s of
        None \<Rightarrow> Inl (FileNotFoundError, dst)
      | Some n \<Rightarrow>
          (case resolve n of
             Some (Dir es) \<Rightarrow>
               (if map_of dst item \<noteq> None then Inl (FileExistsError, dst)
                else
                  (let dst' = AList.update item (Dir (copy_entries es)) dst
                   in if dangling_entries es then Inl (ShutilError, dst') else Inr dst'))
           | Some _ \<Rightarrow> Inl (NotADirectoryError, dst)
           | None \<Rightarrow> Inl (FileNotFoundError, dst)))"

text \<open>
  \<^verbatim>\<open>open(d, 'wb')\<close> and the write of the bytes \<open>c\<close>, on what \<^verbatim>\<open>d\<close> names: a new
  file is created, a file is overwritten, a link is followed, a directory is
  refused. Through a dangling link the target is created. That is what
  \<^verbatim>\<open>open\<close> does when the directory of the target exists, and the dangling links
  of this model are of that kind; a link whose target lies in a missing directory
  makes \<^verbatim>\<open>open\<close> raise \<^verbatim>\<open>FileNotFoundError\<close> and is not represented. The
  hypothesis \<open>dest_plain\<close> below keeps links out of the destination entries that
  are written, so a theorem stated under it does not depend on this case.
\<close>

fun write_file :: "string \<Rightarrow> node option \<Rightarrow> error + node" where
  "write_file c None = Inr (File c)"
| "write_file c (Some (File old)) = Inr (File c)"
| "write_file c (Some (Dir es)) = Inl IsADirectoryError"
| "write_file c (Some (Symlink t)) =
     (case write_file c t of Inl e \<Rightarrow> Inl e | Inr n \<Rightarrow> Inr (Symlink (Some n)))"

text \<open>
  \<^verbatim>\<open>shutil.copy2\<close> when \<^verbatim>\<open>os.path.isdir(d)\<close>: the file is written inside \<^verbatim>\<open>d\<close>,
  under the base name of the source.
\<close>

fun copy_into :: "string \<Rightarrow> string \<Rightarrow> node \<Rightarrow> error + node" where
  "copy_into c item (Dir es) =
     (case write_file c (map_of es item) of
        Inl e \<Rightarrow> Inl e
      | Inr n \<Rightarrow> Inr (Dir (AList.update item n es)))"
| "copy_into c item (Symlink (Some t)) =
     (case copy_into c item t of Inl e \<Rightarrow> Inl e | Inr n \<Rightarrow> Inr (Symlink (Some n)))"
| "copy_into c item (Symlink None) = Inl FileNotFoundError"
| "copy_into c item (File old) = Inl NotADirectoryError"

text \<open>
  \<^verbatim>\<open>shutil.copy2(s, d)\<close>, where \<^verbatim>\<open>d\<close> is the entry \<^verbatim>\<open>item\<close> of a directory with
  entries \<open>dst\<close> and \<^verbatim>\<open>item\<close> is also the base name of \<^verbatim>\<open>s\<close>. The source is
  opened first.
\<close>

definition shutil_copy2 :: "node option \<Rightarrow> string \<Rightarrow> entries \<Rightarrow> error + entries" where
  "shutil_copy2 s item dst =
     (case s of
        None \<Rightarrow> Inl FileNotFoundError
      | Some n \<Rightarrow>
          (case resolve n of
             Some (File c) \<Rightarrow>
               (case (case map_of dst item of
                        None \<Rightarrow> write_file c None
                      | Some d \<Rightarrow>
                          if path_isdir (Some d) then copy_into c item d
                          else write_file c (Some d)) of
                  Inl e \<Rightarrow> Inl e
                | Inr d' \<Rightarrow> Inr (AList.update item d' dst))
           | Some (Dir es) \<Rightarrow> Inl IsADirectoryError
           | _ \<Rightarrow> Inl FileNotFoundError))"


section \<open>The script\<close>

text \<open>
  The entries of the directory a path names, and the same path with the entries of
  that directory replaced.
\<close>

fun node_entries :: "node \<Rightarrow> entries" where
  "node_entries (Dir es) = es"
| "node_entries (Symlink (Some t)) = node_entries t"
| "node_entries n = []"

fun put_node_entries :: "entries \<Rightarrow> node \<Rightarrow> node" where
  "put_node_entries es (Dir old) = Dir es"
| "put_node_entries es (Symlink (Some t)) = Symlink (Some (put_node_entries es t))"
| "put_node_entries es n = n"

definition contents :: "node option \<Rightarrow> entries" where
  "contents p = (case p of None \<Rightarrow> [] | Some n \<Rightarrow> node_entries n)"

definition put_contents :: "entries \<Rightarrow> node option \<Rightarrow> node option" where
  "put_contents es p = map_option (put_node_entries es) p"

text \<open>
  A \<^verbatim>\<open>for\<close> loop over a list taken before the loop: the body runs on each item
  in turn, and the first exception ends the loop with the state reached.
\<close>

fun for_each :: "('a \<Rightarrow> 's \<Rightarrow> 's result) \<Rightarrow> 'a list \<Rightarrow> 's \<Rightarrow> 's result" where
  "for_each body [] st = Inr st"
| "for_each body (item # items) st =
     (case body item st of
        Inl r \<Rightarrow> Inl r
      | Inr st' \<Rightarrow> for_each body items st')"

text \<open>The state a call leaves behind, whether it raised or not.\<close>

definition after :: "'s result \<Rightarrow> 's" where
  "after r = (case r of Inl (e, st) \<Rightarrow> st | Inr st \<Rightarrow> st)"

text \<open>
  \<^verbatim>\<open>copytree(src, dst)\<close> of the script (lines 7 to 15), called with its defaults
  \<^verbatim>\<open>symlinks=False\<close> and \<^verbatim>\<open>ignore=None\<close>. \<open>copytree_body\<close> is the body of its
  loop (lines 9 to 15): \<open>src\<close> are the entries of the source directory and \<open>dst\<close>
  those of the destination directory, which \<^verbatim>\<open>main\<close> has listed before the call.
\<close>

definition copytree_body :: "entries \<Rightarrow> string \<Rightarrow> entries \<Rightarrow> entries result" where
  "copytree_body src item dst =
     (let s = map_of src item in
      if path_isdir s then
        (if item \<noteq> ''specific'' then shutil_copytree s item dst
         else Inr dst)
      else
        (case shutil_copy2 s item dst of
           Inl e \<Rightarrow> Inl (e, dst)
         | Inr dst' \<Rightarrow> Inr dst'))"

definition copytree :: "node option \<Rightarrow> entries \<Rightarrow> entries result" where
  "copytree src dst =
     (case listdir src of
        Inl e \<Rightarrow> Inl (e, dst)
      | Inr items \<Rightarrow> for_each (copytree_body (contents src)) items dst)"

text \<open>
  The body of the loop of \<^verbatim>\<open>main\<close> that clears \<^verbatim>\<open>directory2\<close> (lines 28 to 33),
  on the entries \<open>es\<close> of \<^verbatim>\<open>directory2\<close>.
\<close>

definition clear_body :: "string \<Rightarrow> entries \<Rightarrow> entries result" where
  "clear_body item es =
     (let s = map_of es item in
      if item \<noteq> ''specific'' \<and> path_exists s then
        (if path_isdir s then
           (case shutil_rmtree item es of
              Inl e \<Rightarrow> Inl (e, es)
            | Inr es' \<Rightarrow> Inr es')
         else
           (case os_remove item es of
              Inl e \<Rightarrow> Inl (e, es)
            | Inr es' \<Rightarrow> Inr es'))
      else Inr es)"

text \<open>\<^verbatim>\<open>main()\<close> (lines 17 to 36).\<close>

definition no_action_needed :: string where
  "no_action_needed = ''Directories are identical. No action needed.''"

definition main :: "fs \<Rightarrow> fs result" where
  "main fs =
     (let dir1 = directory1 fs; dir2 = directory2 fs in
      case dircmp_left_only dir1 dir2 of
        Inl e \<Rightarrow> Inl (e, fs)
      | Inr left_only \<Rightarrow>
          if left_only = [] then Inr (fs\<lparr>stdout := stdout fs @ [no_action_needed]\<rparr>)
          else
            (case listdir dir2 of
               Inl e \<Rightarrow> Inl (e, fs)
             | Inr items \<Rightarrow>
                 (case for_each clear_body items (contents dir2) of
                    Inl (e, es) \<Rightarrow> Inl (e, fs\<lparr>directory2 := put_contents es dir2\<rparr>)
                  | Inr es \<Rightarrow>
                      (case copytree dir1 es of
                         Inl (e, es') \<Rightarrow> Inl (e, fs\<lparr>directory2 := put_contents es' dir2\<rparr>)
                       | Inr es' \<Rightarrow> Inr (fs\<lparr>directory2 := put_contents es' dir2\<rparr>)))))"


section \<open>Trees without symbolic links\<close>

text \<open>
  \<open>plain\<close>: the tree holds regular files and directories only. \<open>all_exist\<close>: no
  entry of the directory is a dangling link, that is, \<^verbatim>\<open>os.path.exists\<close> answers
  True for each of them.
\<close>

fun plain :: "node \<Rightarrow> bool"
  and plain_entries :: "entries \<Rightarrow> bool" where
  "plain (File c) = True"
| "plain (Dir es) = plain_entries es"
| "plain (Symlink t) = False"
| "plain_entries [] = True"
| "plain_entries ((name, x) # es) = (plain x \<and> plain_entries es)"

fun all_exist :: "entries \<Rightarrow> bool" where
  "all_exist [] = True"
| "all_exist ((name, x) # es) = (path_exists (Some x) \<and> all_exist es)"

text \<open>
  The trees in which the script meets no symbolic link. \<open>is_link\<close> is
  \<^verbatim>\<open>os.path.islink\<close> on an entry.

  \<open>source_plain\<close>, for the entries of \<^verbatim>\<open>./directory1\<close>: every top-level entry is
  free of links, except that below a top-level directory named \<^verbatim>\<open>specific\<close>,
  which \<^verbatim>\<open>copytree\<close> skips without reading, anything may lie. The entry
  \<^verbatim>\<open>specific\<close> itself is not a link.

  \<open>dest_plain\<close>, for the entries of \<^verbatim>\<open>./directory2\<close>: no top-level entry is a
  link, and the entry \<^verbatim>\<open>specific\<close>, which the clearing loop keeps, holds no link
  at any depth. Below the other top-level directories anything may lie:
  \<^verbatim>\<open>shutil.rmtree\<close> removes a link without following it.
\<close>

fun is_link :: "node \<Rightarrow> bool" where
  "is_link (Symlink t) = True"
| "is_link (File c) = False"
| "is_link (Dir es) = False"

fun source_plain :: "entries \<Rightarrow> bool" where
  "source_plain [] = True"
| "source_plain ((name, x) # es) =
     ((if name = ''specific'' then \<not> is_link x else plain x) \<and> source_plain es)"

fun dest_plain :: "entries \<Rightarrow> bool" where
  "dest_plain [] = True"
| "dest_plain ((name, x) # es) =
     ((if name = ''specific'' then plain x else \<not> is_link x) \<and> dest_plain es)"

text \<open>
  What a path names below a directory with entries \<open>es\<close>: links are followed on the
  way, the last component is taken as it is.
\<close>

fun lookup_path :: "entries \<Rightarrow> string list \<Rightarrow> node option" where
  "lookup_path es [] = None"
| "lookup_path es [name] = map_of es name"
| "lookup_path es (name # p) =
     (case Option.bind (map_of es name) resolve of
        Some (Dir sub) \<Rightarrow> lookup_path sub p
      | _ \<Rightarrow> None)"


section \<open>The comparison\<close>

lemmas script_defs =
  main_def Let_def dircmp_left_only_def dircmp_filter_def dircmp_hide_def DEFAULT_IGNORES_def
  listdir_def contents_def put_contents_def clear_body_def copytree_def copytree_body_def
  path_exists_def path_isdir_def shutil_rmtree_def os_remove_def shutil_copytree_def
  shutil_copy2_def no_action_needed_def

lemma lookup_path_cong:
  "map_of es n = map_of es' n \<Longrightarrow> lookup_path es (n # p) = lookup_path es' (n # p)"
  by (cases p) simp_all

lemma left_only_nonempty:
  assumes "listdir a = Inr l" and "listdir b = Inr r"
  shows "dircmp_left_only a b \<noteq> Inr [] \<longleftrightarrow>
         (\<exists>x \<in> set l. x \<notin> set r \<and> x \<notin> set (dircmp_hide @ DEFAULT_IGNORES))"
  using assms by (auto simp: dircmp_left_only_def dircmp_filter_def filter_empty_conv Let_def)

lemma listdir_Dir: "listdir (Some (Dir es)) = Inr (map fst es)"
  by (simp add: listdir_def)


lemma left_only_subset:
  assumes "listdir a = Inr l" and "listdir b = Inr r" and "set l - set r = {}"
  shows "dircmp_left_only a b = Inr []"
  using assms by (auto simp: dircmp_left_only_def dircmp_filter_def filter_empty_conv)


section \<open>Plain trees\<close>

lemma plain_copy:
  "plain n \<Longrightarrow> copy_node n = Some n \<and> \<not> dangling n"
  "plain_entries es \<Longrightarrow> copy_entries es = es \<and> \<not> dangling_entries es"
  by (induction n and es rule: copy_node_copy_entries.induct) auto

lemma all_exist_map_of:
  "all_exist es \<Longrightarrow> map_of es n = Some x \<Longrightarrow> path_exists (Some x)"
  by (induction es) (auto split: if_splits)

lemma source_plain_map_of:
  "source_plain es \<Longrightarrow> map_of es n = Some x \<Longrightarrow> n \<noteq> ''specific'' \<Longrightarrow> plain x"
  by (induction es) (auto split: if_splits)

lemma not_link_exists: "\<not> is_link x \<Longrightarrow> path_exists (Some x)"
  by (cases x) (simp_all add: path_exists_def)

lemma plain_not_link: "plain x \<Longrightarrow> \<not> is_link x"
  by (cases x) simp_all

lemma dest_plain_all_exist: "dest_plain es \<Longrightarrow> all_exist es"
  by (induction es) (auto simp: not_link_exists plain_not_link split: if_splits)


section \<open>Loops\<close>

lemma for_each_invariant:
  assumes "\<And>x st. x \<in> set xs \<Longrightarrow> I st \<Longrightarrow> I (after (body x st))"
    and "I st"
  shows "I (after (for_each body xs st))"
  using assms
proof (induction xs arbitrary: st)
  case Nil
  then show ?case by (simp add: after_def)
next
  case (Cons x xs)
  have step: "I (after (body x st))" using Cons.prems by simp
  show ?case
  proof (cases "body x st")
    case (Inl r)
    with step show ?thesis by simp
  next
    case (Inr st')
    with step have "I st'" by (simp add: after_def)
    with Cons.IH [of st'] Cons.prems(1) have "I (after (for_each body xs st'))" by simp
    with Inr show ?thesis by simp
  qed
qed

lemma for_each_raises_iff:
  "for_each body xs st = Inl r \<longleftrightarrow>
     (\<exists>pre x post st'. xs = pre @ x # post \<and> for_each body pre st = Inr st' \<and> body x st' = Inl r)"
proof (induction xs arbitrary: st)
  case Nil
  then show ?case by simp
next
  case (Cons y ys)
  show ?case
  proof (cases "body y st")
    case (Inl r')
    show ?thesis
    proof
      assume "for_each body (y # ys) st = Inl r"
      with Inl have "r' = r" by simp
      with Inl have "y # ys = [] @ y # ys \<and> for_each body [] st = Inr st \<and> body y st = Inl r" by simp
      then show "\<exists>pre x post st'. y # ys = pre @ x # post \<and> for_each body pre st = Inr st' \<and> body x st' = Inl r"
        by blast
    next
      assume "\<exists>pre x post st'. y # ys = pre @ x # post \<and> for_each body pre st = Inr st' \<and> body x st' = Inl r"
      then obtain pre x post st' where h: "y # ys = pre @ x # post" "for_each body pre st = Inr st'" "body x st' = Inl r"
        by blast
      show "for_each body (y # ys) st = Inl r"
      proof (cases pre)
        case Nil
        with h Inl show ?thesis by simp
      next
        case (Cons p ps)
        with h Inl show ?thesis by simp
      qed
    qed
  next
    case (Inr st1)
    show ?thesis
    proof
      assume "for_each body (y # ys) st = Inl r"
      with Inr have "for_each body ys st1 = Inl r" by simp
      with Cons.IH [of st1] obtain pre x post st' where
        h: "ys = pre @ x # post" "for_each body pre st1 = Inr st'" "body x st' = Inl r" by blast
      with Inr have "y # ys = (y # pre) @ x # post \<and> for_each body (y # pre) st = Inr st' \<and> body x st' = Inl r"
        by simp
      then show "\<exists>pre x post st'. y # ys = pre @ x # post \<and> for_each body pre st = Inr st' \<and> body x st' = Inl r"
        by blast
    next
      assume "\<exists>pre x post st'. y # ys = pre @ x # post \<and> for_each body pre st = Inr st' \<and> body x st' = Inl r"
      then obtain pre x post st' where h: "y # ys = pre @ x # post" "for_each body pre st = Inr st'" "body x st' = Inl r"
        by blast
      show "for_each body (y # ys) st = Inl r"
      proof (cases pre)
        case Nil
        with h Inr show ?thesis by simp
      next
        case (Cons p ps)
        with h Inr have "ys = ps @ x # post" "for_each body ps st1 = Inr st'" by simp_all
        with h(3) Cons.IH [of st1] have "for_each body ys st1 = Inl r" by blast
        with Inr show ?thesis by simp
      qed
    qed
  qed
qed



section \<open>Clearing the destination\<close>

lemma map_of_filter_key:
  "map_of (filter (\<lambda>(k, v). P k) es) n = (if P n then map_of es n else None)"
  by (induction es) auto

lemma clear_body_Inr:
  "clear_body item es = Inr es' \<Longrightarrow>
     es' = (if item \<noteq> ''specific'' \<and> path_exists (map_of es item)
            then AList.delete item es else es)"
  by (auto simp: clear_body_def Let_def shutil_rmtree_def os_remove_def
      split: if_splits sum.splits option.splits node.splits)

lemma clear_body_Inl: "clear_body item es = Inl (e, es') \<Longrightarrow> es' = es"
  by (auto simp: clear_body_def Let_def split: if_splits sum.splits)

lemma clear_body_after:
  "after (clear_body item es) = es \<or>
   (item \<noteq> ''specific'' \<and> path_exists (map_of es item) \<and>
    after (clear_body item es) = AList.delete item es)"
proof (cases "clear_body item es")
  case (Inl r)
  then show ?thesis using clear_body_Inl [of item es "fst r" "snd r"]
    by (cases r) (simp add: after_def)
next
  case (Inr es')
  then show ?thesis using clear_body_Inr [of item es es'] by (auto simp: after_def)
qed

lemma clear_loop_Inr:
  "for_each clear_body items es = Inr es' \<Longrightarrow>
     es' = filter (\<lambda>(n, x). \<not> (n \<in> set items \<and> n \<noteq> ''specific'' \<and> path_exists (map_of es n))) es"
proof (induction items arbitrary: es)
  case Nil
  then show ?case by simp
next
  case (Cons item items)
  from Cons.prems obtain es1 where b: "clear_body item es = Inr es1"
    and l: "for_each clear_body items es1 = Inr es'"
    by (auto split: sum.splits)
  note ih = Cons.IH [OF l]
  show ?case
  proof (cases "item \<noteq> ''specific'' \<and> path_exists (map_of es item)")
    case True
    with clear_body_Inr [OF b] have e1: "es1 = AList.delete item es" by simp
    have m: "\<And>n. path_exists (map_of es1 n) = (n \<noteq> item \<and> path_exists (map_of es n))"
      by (simp add: e1 delete_conv' path_exists_def)
    have "es' = filter (\<lambda>(n, x). \<not> (n \<in> set items \<and> n \<noteq> ''specific'' \<and> path_exists (map_of es1 n)))
                  (filter (\<lambda>(n, x). item \<noteq> n) es)"
      using ih by (simp add: e1 AList.delete_eq)
    also have "\<dots> = filter (\<lambda>(n, x). \<not> (n \<in> set (item # items) \<and> n \<noteq> ''specific'' \<and> path_exists (map_of es n))) es"
      unfolding filter_filter using True m by (intro filter_cong) auto
    finally show ?thesis .
  next
    case False
    with clear_body_Inr [OF b] have e1: "es1 = es" by auto
    have "filter (\<lambda>(n, x). \<not> (n \<in> set items \<and> n \<noteq> ''specific'' \<and> path_exists (map_of es n))) es
        = filter (\<lambda>(n, x). \<not> (n \<in> set (item # items) \<and> n \<noteq> ''specific'' \<and> path_exists (map_of es n))) es"
      using False by (intro filter_cong) auto
    with ih e1 show ?thesis by simp
  qed
qed


lemma clear_all_exist:
  assumes "for_each clear_body (map fst es) es = Inr es'" and "all_exist es"
  shows "es' = filter (\<lambda>(n, x). n = ''specific'') es"
proof -
  have "\<And>n x. (n, x) \<in> set es \<Longrightarrow> n \<in> set (map fst es) \<and> path_exists (map_of es n)"
  proof -
    fix n x assume a: "(n, x) \<in> set es"
    then obtain y where y: "map_of es n = Some y" using weak_map_of_SomeI by fastforce
    with assms(2) have "path_exists (Some y)" by (rule all_exist_map_of)
    with y a show "n \<in> set (map fst es) \<and> path_exists (map_of es n)" by force
  qed
  then have "filter (\<lambda>(n, x). \<not> (n \<in> set (map fst es) \<and> n \<noteq> ''specific'' \<and> path_exists (map_of es n))) es
           = filter (\<lambda>(n, x). n = ''specific'') es"
    by (intro filter_cong) auto
  with clear_loop_Inr [OF assms(1)] show ?thesis by simp
qed

lemma clear_survives:
  assumes "item = ''specific'' \<or> \<not> path_exists (map_of es item)"
  shows "map_of (after (for_each clear_body items es)) item = map_of es item"
proof (rule for_each_invariant [where I = "\<lambda>st. map_of st item = map_of es item"])
  fix x st
  assume "map_of st item = map_of es item"
  with assms clear_body_after [of x st]
  show "map_of (after (clear_body x st)) item = map_of es item"
    by (auto simp: delete_conv')
qed simp



section \<open>Copying the source\<close>

lemma copytree_body_other:
  "copytree_body src item dst = Inr dst' \<Longrightarrow> n \<noteq> item \<Longrightarrow> map_of dst' n = map_of dst n"
  by (auto simp: copytree_body_def Let_def shutil_copytree_def shutil_copy2_def update_conv'
      split: if_splits sum.splits option.splits node.splits)

lemma copytree_body_specific_dir:
  "copytree_body src ''specific'' dst = Inr dst' \<Longrightarrow> path_isdir (map_of src ''specific'') \<Longrightarrow> dst' = dst"
  by (simp add: copytree_body_def)

lemma copytree_body_plain:
  assumes "copytree_body src item dst = Inr dst'"
    and "source_plain src" and "map_of src item \<noteq> None"
    and "item \<noteq> ''specific''"
    and "map_of dst item = None \<or> map_of dst item = map_of src item"
  shows "map_of dst' item = map_of src item"
proof -
  from assms(3) obtain x where x: "map_of src item = Some x" by auto
  from assms(2) x assms(4) have px: "plain x" by (rule source_plain_map_of)
  show ?thesis
  proof (cases x)
    case (File c)
    with x have nd: "\<not> path_isdir (map_of src item)" by (simp add: path_isdir_def)
    from assms(5) x File have "map_of dst item = None \<or> map_of dst item = Some (File c)" by simp
    then show ?thesis
      using assms(1) nd x File
      by (auto simp: copytree_body_def shutil_copy2_def path_isdir_def update_conv'
          split: sum.splits)
  next
    case (Dir es)
    with px have "copy_entries es = es" by (simp add: plain_copy)
    with x Dir assms(1,4) show ?thesis
      by (auto simp: copytree_body_def shutil_copytree_def path_isdir_def Let_def update_conv'
          split: if_splits)
  next
    case (Symlink t)
    with px show ?thesis by simp
  qed
qed

lemma copy_loop_plain:
  assumes "for_each (copytree_body src) items dst = Inr dst'"
    and "source_plain src"
    and "\<forall>n \<in> set items. map_of src n \<noteq> None"
    and "\<forall>n \<in> set items. n \<noteq> ''specific'' \<longrightarrow> map_of dst n = None \<or> map_of dst n = map_of src n"
  shows "n \<noteq> ''specific'' \<Longrightarrow> map_of dst' n = (if n \<in> set items then map_of src n else map_of dst n)"
    and "(''specific'' \<in> set items \<longrightarrow> path_isdir (map_of src ''specific'')) \<Longrightarrow>
           map_of dst' ''specific'' = map_of dst ''specific''"
  using assms
proof (induction items arbitrary: dst)
  case Nil
  { case 1 then show ?case by simp }
  { case 2 then show ?case by simp }
next
  case (Cons item items)
  { case 1
    from "1.prems"(2) obtain dst1 where b: "copytree_body src item dst = Inr dst1"
      and l: "for_each (copytree_body src) items dst1 = Inr dst'"
      by (auto split: sum.splits)
    have other: "\<And>m. m \<noteq> item \<Longrightarrow> map_of dst1 m = map_of dst m"
      using b by (rule copytree_body_other)
    have same: "item \<noteq> ''specific'' \<Longrightarrow> map_of dst1 item = map_of src item"
      using copytree_body_plain [OF b "1.prems"(3)] "1.prems"(4,5) by simp
    have pre: "\<forall>m \<in> set items. m \<noteq> ''specific'' \<longrightarrow> map_of dst1 m = None \<or> map_of dst1 m = map_of src m"
      using other same "1.prems"(5) by (metis list.set_intros(2))
    have "map_of dst' n = (if n \<in> set items then map_of src n else map_of dst1 n)"
      using Cons.IH(1) [OF "1.prems"(1) l "1.prems"(3) _ pre] "1.prems"(4) by simp
    then show ?case using other same "1.prems"(1) by (cases "n = item") auto }
  { case 2
    from "2.prems"(2) obtain dst1 where b: "copytree_body src item dst = Inr dst1"
      and l: "for_each (copytree_body src) items dst1 = Inr dst'"
      by (auto split: sum.splits)
    have other: "\<And>m. m \<noteq> item \<Longrightarrow> map_of dst1 m = map_of dst m"
      using b by (rule copytree_body_other)
    have same: "item \<noteq> ''specific'' \<Longrightarrow> map_of dst1 item = map_of src item"
      using copytree_body_plain [OF b "2.prems"(3)] "2.prems"(4,5) by simp
    have pre: "\<forall>m \<in> set items. m \<noteq> ''specific'' \<longrightarrow> map_of dst1 m = None \<or> map_of dst1 m = map_of src m"
      using other same "2.prems"(5) by (metis list.set_intros(2))
    have "map_of dst' ''specific'' = map_of dst1 ''specific''"
      using Cons.IH(2) [OF _ l "2.prems"(3) _ pre] "2.prems"(1,4) by simp
    moreover have "map_of dst1 ''specific'' = map_of dst ''specific''"
    proof (cases "item = ''specific''")
      case True
      with b "2.prems"(1) show ?thesis using copytree_body_specific_dir by auto
    next
      case False
      then show ?thesis using other by simp
    qed
    ultimately show ?case by simp }
qed









section \<open>What a copy leaves in the destination\<close>














section \<open>A run that clears and copies\<close>

lemma main_full_run:
  assumes "directory1 fs = Some (Dir src)" and "directory2 fs = Some (Dir dst)"
    and "dircmp_left_only (directory1 fs) (directory2 fs) \<noteq> Inr []"
    and "main fs = Inr fs'"
  shows "\<exists>c dst'. for_each clear_body (map fst dst) dst = Inr c
           \<and> for_each (copytree_body src) (map fst src) c = Inr dst'
           \<and> fs' = fs\<lparr>directory2 := Some (Dir dst')\<rparr>"
proof -
  obtain lo where lo: "dircmp_left_only (directory1 fs) (directory2 fs) = Inr lo"
    using assms(1,2) by (simp add: dircmp_left_only_def listdir_Dir Let_def)
  with assms(3) have ne: "lo \<noteq> []" by simp
  show ?thesis
    using assms(4) lo ne assms(1,2)
    by (auto simp: main_def Let_def listdir_Dir contents_def put_contents_def copytree_def
        split: sum.splits prod.splits)
qed

lemma main_replaces:
  assumes "directory1 fs = Some (Dir src)" and "directory2 fs = Some (Dir dst)"
    and "dircmp_left_only (directory1 fs) (directory2 fs) \<noteq> Inr []"
    and "main fs = Inr fs'"
    and "source_plain src" and "dest_plain dst"
  shows "\<exists>dst'. fs' = fs\<lparr>directory2 := Some (Dir dst')\<rparr>
           \<and> (\<forall>n. n \<noteq> ''specific'' \<longrightarrow> map_of dst' n = map_of src n)
           \<and> (map_of src ''specific'' = None \<or> path_isdir (map_of src ''specific'')
                \<longrightarrow> map_of dst' ''specific'' = map_of dst ''specific'')"
proof -
  from main_full_run [OF assms(1-4)] obtain c dst' where
    c: "for_each clear_body (map fst dst) dst = Inr c"
    and d: "for_each (copytree_body src) (map fst src) c = Inr dst'"
    and f: "fs' = fs\<lparr>directory2 := Some (Dir dst')\<rparr>" by blast
  have ceq: "c = filter (\<lambda>(n, x). n = ''specific'') dst"
    using clear_all_exist [OF c dest_plain_all_exist [OF assms(6)]] .
  have cm: "\<And>n. map_of c n = (if n = ''specific'' then map_of dst n else None)"
    unfolding ceq by (rule map_of_filter_key)
  have names: "\<forall>n \<in> set (map fst src). map_of src n \<noteq> None"
    by (simp add: map_of_eq_None_iff)
  have pre: "\<forall>n \<in> set (map fst src). n \<noteq> ''specific'' \<longrightarrow> map_of c n = None \<or> map_of c n = map_of src n"
    by (simp add: cm)
  have a: "\<forall>n. n \<noteq> ''specific'' \<longrightarrow> map_of dst' n = map_of src n"
  proof (intro allI impI)
    fix n :: string assume n: "n \<noteq> ''specific''"
    have "n \<notin> set (map fst src) \<Longrightarrow> map_of src n = None"
      by (simp add: map_of_eq_None_iff)
    with copy_loop_plain(1) [OF d assms(5) names pre n]
    show "map_of dst' n = map_of src n"
      using n by (simp add: cm)
  qed
  have b: "map_of src ''specific'' = None \<or> path_isdir (map_of src ''specific'')
             \<longrightarrow> map_of dst' ''specific'' = map_of dst ''specific''"
  proof
    assume "map_of src ''specific'' = None \<or> path_isdir (map_of src ''specific'')"
    then have "''specific'' \<in> set (map fst src) \<longrightarrow> path_isdir (map_of src ''specific'')"
      by (auto simp: map_of_eq_None_iff)
    from copy_loop_plain(2) [OF d assms(5) names pre this]
    show "map_of dst' ''specific'' = map_of dst ''specific''" by (simp add: cm)
  qed
  from f a b show ?thesis by blast
qed

lemma main_left_only_empty:
  assumes "dircmp_left_only (directory1 fs) (directory2 fs) = Inr []"
  shows "main fs = Inr (fs\<lparr>stdout := stdout fs @ [no_action_needed]\<rparr>)"
  using assms by (simp add: main_def)



section \<open>Exceptions\<close>

lemma for_each_raises_ex:
  "(\<exists>st'. for_each body xs st = Inl (e, st')) \<longleftrightarrow>
     (\<exists>pre x post st1. xs = pre @ x # post \<and> for_each body pre st = Inr st1
        \<and> (\<exists>st'. body x st1 = Inl (e, st')))"
  using for_each_raises_iff [of body xs st] by blast

lemma clear_body_raises:
  "(\<exists>es'. clear_body item es = Inl (e, es')) \<longleftrightarrow>
     item \<noteq> ''specific'' \<and> path_exists (map_of es item)
     \<and> (if path_isdir (map_of es item) then shutil_rmtree item es = Inl e
         else os_remove item es = Inl e)"
  by (auto simp: clear_body_def Let_def split: sum.splits)

lemma copytree_body_raises:
  "(\<exists>dst'. copytree_body src item dst = Inl (e, dst')) \<longleftrightarrow>
     (if path_isdir (map_of src item)
      then item \<noteq> ''specific'' \<and> (\<exists>dst'. shutil_copytree (map_of src item) item dst = Inl (e, dst'))
      else shutil_copy2 (map_of src item) item dst = Inl e)"
  by (auto simp: copytree_body_def Let_def split: sum.splits)

lemma main_raises_split:
  assumes "listdir (directory1 fs) = Inr names" and "listdir (directory2 fs) = Inr items"
    and "dircmp_left_only (directory1 fs) (directory2 fs) \<noteq> Inr []"
  shows "(\<exists>fs'. main fs = Inl (e, fs')) \<longleftrightarrow>
     (\<exists>es. for_each clear_body items (contents (directory2 fs)) = Inl (e, es))
     \<or> (\<exists>c. for_each clear_body items (contents (directory2 fs)) = Inr c
           \<and> (\<exists>dst'. for_each (copytree_body (contents (directory1 fs))) names c = Inl (e, dst')))"
proof -
  obtain lo where lo: "dircmp_left_only (directory1 fs) (directory2 fs) = Inr lo"
    using assms(1,2) by (simp add: dircmp_left_only_def Let_def)
  with assms(3) have ne: "lo \<noteq> []" by simp
  show ?thesis
  proof (cases "for_each clear_body items (contents (directory2 fs))")
    case (Inl r)
    obtain e1 es1 where r: "r = (e1, es1)" by (cases r)
    with Inl lo ne assms(2) have "main fs = Inl (e1, fs\<lparr>directory2 := put_contents es1 (directory2 fs)\<rparr>)"
      by (simp add: main_def)
    with Inl r show ?thesis by auto
  next
    case (Inr c)
    show ?thesis
    proof (cases "for_each (copytree_body (contents (directory1 fs))) names c")
      case (Inl r)
      obtain e1 d1 where r: "r = (e1, d1)" by (cases r)
      with Inl Inr lo ne assms(1,2)
      have "main fs = Inl (e1, fs\<lparr>directory2 := put_contents d1 (directory2 fs)\<rparr>)"
        by (simp add: main_def copytree_def)
      with Inl Inr r show ?thesis by auto
    next
      case inr: (Inr d1)
      with Inr lo ne assms(1,2)
      have "main fs = Inr (fs\<lparr>directory2 := put_contents d1 (directory2 fs)\<rparr>)"
        by (simp add: main_def copytree_def)
      with inr Inr show ?thesis by auto
    qed
  qed
qed


section \<open>Properties of the script\<close>

text \<open>
  Claim C1, as amended. The comparison is \<^verbatim>\<open>filecmp.dircmp\<close> with its default
  \<^verbatim>\<open>ignore\<close> list, so a source name of that list does not count as missing. When
  some top-level name of the source is missing from the destination and is not one
  of the names \<^verbatim>\<open>dircmp\<close> hides or ignores, the source holds no symbolic link
  outside a top-level directory \<^verbatim>\<open>specific\<close>, no top-level entry of the
  destination is a symbolic link, the destination's entry \<^verbatim>\<open>specific\<close> holds no
  symbolic link, and \<^verbatim>\<open>main\<close> returns without raising, then every top-level
  name of the source other than \<^verbatim>\<open>specific\<close> is in the destination with the
  subtree it has in the source.
\<close>

theorem main_copies_source:
  assumes "directory1 fs = Some (Dir src)" and "directory2 fs = Some (Dir dst)"
    and "\<exists>x \<in> set (map fst src). x \<notin> set (map fst dst) \<and> x \<notin> set (dircmp_hide @ DEFAULT_IGNORES)"
    and "source_plain src" and "dest_plain dst"
    and "main fs = Inr fs'"
  shows "\<forall>n \<in> set (map fst src). n \<noteq> ''specific'' \<longrightarrow>
           map_of src n \<noteq> None \<and> map_of (contents (directory2 fs')) n = map_of src n"
proof -
  have "dircmp_left_only (directory1 fs) (directory2 fs) \<noteq> Inr []"
    using left_only_nonempty [of "directory1 fs" "map fst src" "directory2 fs" "map fst dst"] assms(1-3)
    by (simp add: listdir_Dir)
  from main_replaces [OF assms(1,2) this assms(6,4,5)] show ?thesis
    by (auto simp: contents_def map_of_eq_None_iff)
qed

theorem main_copies_source_witness:
  "directory1 \<lparr>directory1 = Some (Dir [(''a'', Dir [(''x'', File ''1'')]), (''b.txt'', File ''2''),
                                        (''specific'', Dir [(''l'', Symlink None)])]),
               directory2 = Some (Dir [(''a'', Dir [(''k'', Symlink None)]), (''specific'', Dir [(''u'', File ''user'')])]),
               stdout = []\<rparr>
     = Some (Dir [(''a'', Dir [(''x'', File ''1'')]), (''b.txt'', File ''2''),
                  (''specific'', Dir [(''l'', Symlink None)])])
   \<and> (\<exists>x \<in> set (map fst [(''a'', Dir [(''x'', File ''1'')]), (''b.txt'', File ''2''),
                              (''specific'', Dir [(''l'', Symlink None)])]).
        x \<notin> set (map fst [(''a'', Dir [(''k'', Symlink None)]), (''specific'', Dir [(''u'', File ''user'')])])
        \<and> x \<notin> set (dircmp_hide @ DEFAULT_IGNORES))
   \<and> source_plain [(''a'', Dir [(''x'', File ''1'')]), (''b.txt'', File ''2''),
                    (''specific'', Dir [(''l'', Symlink None)])]
   \<and> dest_plain [(''a'', Dir [(''k'', Symlink None)]), (''specific'', Dir [(''u'', File ''user'')])]
   \<and> main \<lparr>directory1 = Some (Dir [(''a'', Dir [(''x'', File ''1'')]), (''b.txt'', File ''2''),
                                     (''specific'', Dir [(''l'', Symlink None)])]),
            directory2 = Some (Dir [(''a'', Dir [(''k'', Symlink None)]), (''specific'', Dir [(''u'', File ''user'')])]),
            stdout = []\<rparr>
     = Inr \<lparr>directory1 = Some (Dir [(''a'', Dir [(''x'', File ''1'')]), (''b.txt'', File ''2''),
                                     (''specific'', Dir [(''l'', Symlink None)])]),
            directory2 = Some (Dir [(''specific'', Dir [(''u'', File ''user'')]),
                                     (''a'', Dir [(''x'', File ''1'')]), (''b.txt'', File ''2'')]),
            stdout = []\<rparr>
   \<and> map_of (contents (Some (Dir [(''specific'', Dir [(''u'', File ''user'')]),
                                    (''a'', Dir [(''x'', File ''1'')]), (''b.txt'', File ''2'')]))) ''a''
     = map_of [(''a'', Dir [(''x'', File ''1'')]), (''b.txt'', File ''2''),
               (''specific'', Dir [(''l'', Symlink None)])] ''a''"
  using main_copies_source
    [of "\<lparr>directory1 = Some (Dir [(''a'', Dir [(''x'', File ''1'')]), (''b.txt'', File ''2''),
                                        (''specific'', Dir [(''l'', Symlink None)])]),
               directory2 = Some (Dir [(''a'', Dir [(''k'', Symlink None)]), (''specific'', Dir [(''u'', File ''user'')])]),
               stdout = []\<rparr>"
        "[(''a'', Dir [(''x'', File ''1'')]), (''b.txt'', File ''2''),
          (''specific'', Dir [(''l'', Symlink None)])]"
        "[(''a'', Dir [(''k'', Symlink None)]), (''specific'', Dir [(''u'', File ''user'')])]"
        "\<lparr>directory1 = Some (Dir [(''a'', Dir [(''x'', File ''1'')]), (''b.txt'', File ''2''),
                                     (''specific'', Dir [(''l'', Symlink None)])]),
            directory2 = Some (Dir [(''specific'', Dir [(''u'', File ''user'')]),
                                     (''a'', Dir [(''x'', File ''1'')]), (''b.txt'', File ''2'')]),
            stdout = []\<rparr>"]
  by (simp add: script_defs)

text \<open>
  The claim as stated fails at three inputs. First, \<^verbatim>\<open>.git\<close> is in the source
  and not in the destination, yet \<^verbatim>\<open>main\<close> reports identical directories and
  copies nothing. Second, a link to a file in the source is copied as a file, so the
  destination entry is not the source entry. Third, a dangling link in the
  destination (its target lying in an existing directory outside the two trees)
  survives the clearing, and the copy of the source file of that name is written
  through it: the destination entry stays a link.
\<close>

theorem main_copies_source_counterexample:
  "''.git'' \<in> set (map fst [(''.git'', Dir [(''HEAD'', File ''ref'')])])
   \<and> ''.git'' \<notin> set (map fst ([] :: entries))
   \<and> main \<lparr>directory1 = Some (Dir [(''.git'', Dir [(''HEAD'', File ''ref'')])]),
            directory2 = Some (Dir []), stdout = []\<rparr>
     = Inr \<lparr>directory1 = Some (Dir [(''.git'', Dir [(''HEAD'', File ''ref'')])]),
            directory2 = Some (Dir []), stdout = [no_action_needed]\<rparr>
   \<and> map_of (contents (Some (Dir []))) ''.git'' = None
   \<and> map_of [(''.git'', Dir [(''HEAD'', File ''ref'')])] ''.git'' \<noteq> None
   \<and> main \<lparr>directory1 = Some (Dir [(''a'', Symlink (Some (File ''1'')))]),
            directory2 = Some (Dir []), stdout = []\<rparr>
     = Inr \<lparr>directory1 = Some (Dir [(''a'', Symlink (Some (File ''1'')))]),
            directory2 = Some (Dir [(''a'', File ''1'')]), stdout = []\<rparr>
   \<and> map_of (contents (Some (Dir [(''a'', File ''1'')]))) ''a''
       \<noteq> map_of [(''a'', Symlink (Some (File ''1'')))] ''a''
   \<and> main \<lparr>directory1 = Some (Dir [(''a'', File ''1''), (''c'', Dir [])]),
            directory2 = Some (Dir [(''a'', Symlink None)]), stdout = []\<rparr>
     = Inr \<lparr>directory1 = Some (Dir [(''a'', File ''1''), (''c'', Dir [])]),
            directory2 = Some (Dir [(''a'', Symlink (Some (File ''1''))), (''c'', Dir [])]),
            stdout = []\<rparr>
   \<and> map_of (contents (Some (Dir [(''a'', Symlink (Some (File ''1''))), (''c'', Dir [])]))) ''a''
       \<noteq> map_of [(''a'', File ''1''), (''c'', Dir [])] ''a''"
  by (simp add: script_defs)


text \<open>
  Claim C2 fails on the code. The clearing loop spares the name \<^verbatim>\<open>specific\<close>
  whatever it is; \<^verbatim>\<open>copytree\<close> tests the name only for a directory, so a regular
  file called \<^verbatim>\<open>specific\<close> in the source is copied over the destination's.
\<close>

theorem main_overwrites_specific_file:
  "main \<lparr>directory1 = Some (Dir [(''specific'', File ''new''), (''c'', Dir [])]),
         directory2 = Some (Dir [(''specific'', File ''user data'')]),
         stdout = []\<rparr>
     = Inr \<lparr>directory1 = Some (Dir [(''specific'', File ''new''), (''c'', Dir [])]),
            directory2 = Some (Dir [(''specific'', File ''new''), (''c'', Dir [])]),
            stdout = []\<rparr>"
  by (simp add: script_defs)


text \<open>
  Claim C3. When no top-level name of the source directory is missing from the
  destination directory (in particular when the two listings hold the same names),
  \<^verbatim>\<open>main\<close> returns without raising, leaves both trees as they are and prints the
  one line "Directories are identical. No action needed.".
\<close>

theorem main_no_action:
  assumes "listdir (directory1 fs) = Inr l"
    and "listdir (directory2 fs) = Inr r"
    and "set l - set r = {}"
  shows "main fs = Inr (fs\<lparr>stdout := stdout fs @ [no_action_needed]\<rparr>)"
  using left_only_subset [OF assms] by (simp add: main_def)

theorem main_no_action_witness:
  "listdir (Some (Dir [(''a'', Dir []), (''specific'', Dir [])])) = Inr [''a'', ''specific'']
   \<and> listdir (Some (Dir [(''a'', Dir [(''x'', File ''1'')]), (''specific'', Dir [(''u'', File ''user'')])]))
       = Inr [''a'', ''specific'']
   \<and> set [''a'', ''specific''] - set [''a'', ''specific''] = ({} :: string set)
   \<and> main \<lparr>directory1 = Some (Dir [(''a'', Dir []), (''specific'', Dir [])]),
            directory2 = Some (Dir [(''a'', Dir [(''x'', File ''1'')]),
                                    (''specific'', Dir [(''u'', File ''user'')])]),
            stdout = []\<rparr>
       = Inr \<lparr>directory1 = Some (Dir [(''a'', Dir []), (''specific'', Dir [])]),
              directory2 = Some (Dir [(''a'', Dir [(''x'', File ''1'')]),
                                      (''specific'', Dir [(''u'', File ''user'')])]),
              stdout = [no_action_needed]\<rparr>"
  using main_no_action [of "\<lparr>directory1 = Some (Dir [(''a'', Dir []), (''specific'', Dir [])]),
            directory2 = Some (Dir [(''a'', Dir [(''x'', File ''1'')]),
                                    (''specific'', Dir [(''u'', File ''user'')])]),
            stdout = []\<rparr>" "[''a'', ''specific'']" "[''a'', ''specific'']"]
  by (simp add: listdir_def)









text \<open>
  Claim C6, as amended. When \<^verbatim>\<open>left_only\<close> is not empty, the source holds no
  symbolic link outside a top-level directory \<^verbatim>\<open>specific\<close>, no top-level entry
  of the destination is a symbolic link, the destination's entry \<^verbatim>\<open>specific\<close>
  holds no symbolic link, and \<^verbatim>\<open>main\<close> returns without raising, the name
  \<^verbatim>\<open>specific\<close> is set apart at the top level only. Below every other top-level
  name the destination is replaced by the source: every path there names in the
  destination what it names in the source, so a nested \<^verbatim>\<open>specific\<close> of the
  destination is deleted with its parent and a nested \<^verbatim>\<open>specific\<close> of the source
  is copied with its parent. Below the top-level name \<^verbatim>\<open>specific\<close> the
  destination is as it was, when the source has no entry of that name or a
  directory of that name.
\<close>

theorem main_excludes_at_top_level_only:
  assumes "directory1 fs = Some (Dir src)" and "directory2 fs = Some (Dir dst)"
    and "dircmp_left_only (directory1 fs) (directory2 fs) \<noteq> Inr []"
    and "source_plain src" and "dest_plain dst"
    and "main fs = Inr fs'"
  shows "(\<forall>name p. name \<noteq> ''specific'' \<longrightarrow>
            lookup_path (contents (directory2 fs')) (name # p) = lookup_path src (name # p))
       \<and> (map_of src ''specific'' = None \<or> path_isdir (map_of src ''specific'') \<longrightarrow>
            (\<forall>p. lookup_path (contents (directory2 fs')) (''specific'' # p)
                   = lookup_path dst (''specific'' # p)))"
proof -
  from main_replaces [OF assms(1-3,6,4,5)] obtain dst' where
    f: "fs' = fs\<lparr>directory2 := Some (Dir dst')\<rparr>"
    and a: "\<forall>n. n \<noteq> ''specific'' \<longrightarrow> map_of dst' n = map_of src n"
    and b: "map_of src ''specific'' = None \<or> path_isdir (map_of src ''specific'')
              \<longrightarrow> map_of dst' ''specific'' = map_of dst ''specific''"
    by blast
  have c: "contents (directory2 fs') = dst'" by (simp add: f contents_def)
  show ?thesis unfolding c using a b by (auto intro: lookup_path_cong)
qed

theorem main_excludes_at_top_level_only_witness:
  "directory1 \<lparr>directory1 = Some (Dir [(''a'', Dir [(''specific'', Dir [(''x'', File ''new'')])]), (''c'', Dir [])]),
               directory2 = Some (Dir [(''a'', Dir [(''specific'', Dir [(''u'', File ''user'')])]),
                                       (''specific'', Dir [(''v'', File ''kept'')])]),
               stdout = []\<rparr>
     = Some (Dir [(''a'', Dir [(''specific'', Dir [(''x'', File ''new'')])]), (''c'', Dir [])])
   \<and> dircmp_left_only (Some (Dir [(''a'', Dir [(''specific'', Dir [(''x'', File ''new'')])]), (''c'', Dir [])]))
        (Some (Dir [(''a'', Dir [(''specific'', Dir [(''u'', File ''user'')])]),
                    (''specific'', Dir [(''v'', File ''kept'')])])) \<noteq> Inr []
   \<and> source_plain [(''a'', Dir [(''specific'', Dir [(''x'', File ''new'')])]), (''c'', Dir [])]
   \<and> dest_plain [(''a'', Dir [(''specific'', Dir [(''u'', File ''user'')])]),
                 (''specific'', Dir [(''v'', File ''kept'')])]
   \<and> main \<lparr>directory1 = Some (Dir [(''a'', Dir [(''specific'', Dir [(''x'', File ''new'')])]), (''c'', Dir [])]),
            directory2 = Some (Dir [(''a'', Dir [(''specific'', Dir [(''u'', File ''user'')])]),
                                    (''specific'', Dir [(''v'', File ''kept'')])]),
            stdout = []\<rparr>
     = Inr \<lparr>directory1 = Some (Dir [(''a'', Dir [(''specific'', Dir [(''x'', File ''new'')])]), (''c'', Dir [])]),
            directory2 = Some (Dir [(''specific'', Dir [(''v'', File ''kept'')]),
                                    (''a'', Dir [(''specific'', Dir [(''x'', File ''new'')])]),
                                    (''c'', Dir [])]),
            stdout = []\<rparr>
   \<and> lookup_path (contents (Some (Dir [(''specific'', Dir [(''v'', File ''kept'')]),
                                    (''a'', Dir [(''specific'', Dir [(''x'', File ''new'')])]),
                                    (''c'', Dir [])]))) [''a'', ''specific'', ''x'']
     = Some (File ''new'')
   \<and> lookup_path (contents (Some (Dir [(''specific'', Dir [(''v'', File ''kept'')]),
                                    (''a'', Dir [(''specific'', Dir [(''x'', File ''new'')])]),
                                    (''c'', Dir [])]))) [''a'', ''specific'', ''u'']
     = None
   \<and> lookup_path (contents (Some (Dir [(''specific'', Dir [(''v'', File ''kept'')]),
                                    (''a'', Dir [(''specific'', Dir [(''x'', File ''new'')])]),
                                    (''c'', Dir [])]))) [''specific'', ''v'']
     = Some (File ''kept'')"
  using main_excludes_at_top_level_only
    [of "\<lparr>directory1 = Some (Dir [(''a'', Dir [(''specific'', Dir [(''x'', File ''new'')])]), (''c'', Dir [])]),
               directory2 = Some (Dir [(''a'', Dir [(''specific'', Dir [(''u'', File ''user'')])]),
                                       (''specific'', Dir [(''v'', File ''kept'')])]),
               stdout = []\<rparr>"
        "[(''a'', Dir [(''specific'', Dir [(''x'', File ''new'')])]), (''c'', Dir [])]"
        "[(''a'', Dir [(''specific'', Dir [(''u'', File ''user'')])]),
          (''specific'', Dir [(''v'', File ''kept'')])]"
        "\<lparr>directory1 = Some (Dir [(''a'', Dir [(''specific'', Dir [(''x'', File ''new'')])]), (''c'', Dir [])]),
            directory2 = Some (Dir [(''specific'', Dir [(''v'', File ''kept'')]),
                                    (''a'', Dir [(''specific'', Dir [(''x'', File ''new'')])]),
                                    (''c'', Dir [])]),
            stdout = []\<rparr>"]
  by (simp add: script_defs)

text \<open>
  The claim as stated fails: the destination's \<^verbatim>\<open>a/specific/u\<close> is deleted, and
  the source's \<^verbatim>\<open>a/specific/x\<close> is copied.
\<close>

theorem main_nested_specific_counterexample:
  "main \<lparr>directory1 = Some (Dir [(''a'', Dir [(''specific'', Dir [(''x'', File ''new'')])]), (''c'', Dir [])]),
         directory2 = Some (Dir [(''a'', Dir [(''specific'', Dir [(''u'', File ''user'')])])]),
         stdout = []\<rparr>
     = Inr \<lparr>directory1 = Some (Dir [(''a'', Dir [(''specific'', Dir [(''x'', File ''new'')])]), (''c'', Dir [])]),
            directory2 = Some (Dir [(''a'', Dir [(''specific'', Dir [(''x'', File ''new'')])]), (''c'', Dir [])]),
            stdout = []\<rparr>
   \<and> lookup_path [(''a'', Dir [(''specific'', Dir [(''u'', File ''user'')])])] [''a'', ''specific'', ''u'']
       = Some (File ''user'')
   \<and> lookup_path [(''a'', Dir [(''specific'', Dir [(''x'', File ''new'')])]), (''c'', Dir [])]
        [''a'', ''specific'', ''u''] = None
   \<and> lookup_path [(''a'', Dir [(''specific'', Dir [(''x'', File ''new'')])]), (''c'', Dir [])]
        [''a'', ''specific'', ''x''] = Some (File ''new'')"
  by (simp add: script_defs)


text \<open>
  Claim C7, as amended. After a run of \<^verbatim>\<open>main\<close> that finds \<^verbatim>\<open>left_only\<close> not
  empty and returns without raising, on a source that holds no symbolic link
  outside a top-level directory \<^verbatim>\<open>specific\<close> and a destination none of whose
  top-level entries is a symbolic link and whose entry \<^verbatim>\<open>specific\<close> holds no
  symbolic link, every top-level entry of the destination that is not called
  \<^verbatim>\<open>specific\<close> is an entry of the source and is identical to it; and the
  destination's entry \<^verbatim>\<open>specific\<close> is as it was, when the source has no entry
  of that name or a directory of that name.
\<close>

theorem main_full_run_entries:
  assumes "directory1 fs = Some (Dir src)" and "directory2 fs = Some (Dir dst)"
    and "dircmp_left_only (directory1 fs) (directory2 fs) \<noteq> Inr []"
    and "source_plain src" and "dest_plain dst"
    and "main fs = Inr fs'"
  shows "(\<forall>n \<in> set (map fst (contents (directory2 fs'))). n \<noteq> ''specific'' \<longrightarrow>
            n \<in> set (map fst src) \<and> map_of (contents (directory2 fs')) n = map_of src n)
       \<and> (map_of src ''specific'' = None \<or> path_isdir (map_of src ''specific'') \<longrightarrow>
            map_of (contents (directory2 fs')) ''specific'' = map_of dst ''specific'')"
proof -
  from main_replaces [OF assms(1-3,6,4,5)] obtain dst' where
    f: "fs' = fs\<lparr>directory2 := Some (Dir dst')\<rparr>"
    and a: "\<forall>n. n \<noteq> ''specific'' \<longrightarrow> map_of dst' n = map_of src n"
    and b: "map_of src ''specific'' = None \<or> path_isdir (map_of src ''specific'')
              \<longrightarrow> map_of dst' ''specific'' = map_of dst ''specific''"
    by blast
  have c: "contents (directory2 fs') = dst'" by (simp add: f contents_def)
  have "\<forall>n \<in> set (map fst dst'). n \<noteq> ''specific'' \<longrightarrow>
          n \<in> set (map fst src) \<and> map_of dst' n = map_of src n"
  proof (intro ballI impI)
    fix n assume n: "n \<in> set (map fst dst')" "n \<noteq> ''specific''"
    then have "map_of dst' n \<noteq> None" by (simp add: map_of_eq_None_iff)
    with a n(2) have "map_of src n \<noteq> None" by simp
    then have "n \<in> set (map fst src)" by (simp add: map_of_eq_None_iff)
    with a n(2) show "n \<in> set (map fst src) \<and> map_of dst' n = map_of src n" by simp
  qed
  with b show ?thesis unfolding c by simp
qed

theorem main_full_run_entries_witness:
  "directory1 \<lparr>directory1 = Some (Dir [(''a'', Dir [(''x'', File ''1'')]), (''c'', Dir [])]),
               directory2 = Some (Dir [(''a'', Dir [(''y'', File ''2'')]), (''b'', File ''3''),
                                       (''specific'', Dir [(''u'', File ''user'')])]),
               stdout = []\<rparr>
     = Some (Dir [(''a'', Dir [(''x'', File ''1'')]), (''c'', Dir [])])
   \<and> dircmp_left_only (Some (Dir [(''a'', Dir [(''x'', File ''1'')]), (''c'', Dir [])]))
        (Some (Dir [(''a'', Dir [(''y'', File ''2'')]), (''b'', File ''3''),
                    (''specific'', Dir [(''u'', File ''user'')])])) \<noteq> Inr []
   \<and> source_plain [(''a'', Dir [(''x'', File ''1'')]), (''c'', Dir [])]
   \<and> dest_plain [(''a'', Dir [(''y'', File ''2'')]), (''b'', File ''3''),
                 (''specific'', Dir [(''u'', File ''user'')])]
   \<and> main \<lparr>directory1 = Some (Dir [(''a'', Dir [(''x'', File ''1'')]), (''c'', Dir [])]),
            directory2 = Some (Dir [(''a'', Dir [(''y'', File ''2'')]), (''b'', File ''3''),
                                    (''specific'', Dir [(''u'', File ''user'')])]),
            stdout = []\<rparr>
     = Inr \<lparr>directory1 = Some (Dir [(''a'', Dir [(''x'', File ''1'')]), (''c'', Dir [])]),
            directory2 = Some (Dir [(''specific'', Dir [(''u'', File ''user'')]),
                                    (''a'', Dir [(''x'', File ''1'')]), (''c'', Dir [])]),
            stdout = []\<rparr>
   \<and> ''a'' \<in> set (map fst (contents (Some (Dir [(''specific'', Dir [(''u'', File ''user'')]),
                                    (''a'', Dir [(''x'', File ''1'')]), (''c'', Dir [])]))))
   \<and> map_of (contents (Some (Dir [(''specific'', Dir [(''u'', File ''user'')]),
                                    (''a'', Dir [(''x'', File ''1'')]), (''c'', Dir [])]))) ''a''
     = map_of [(''a'', Dir [(''x'', File ''1'')]), (''c'', Dir [])] ''a''
   \<and> map_of (contents (Some (Dir [(''specific'', Dir [(''u'', File ''user'')]),
                                    (''a'', Dir [(''x'', File ''1'')]), (''c'', Dir [])]))) ''specific''
     = map_of [(''a'', Dir [(''y'', File ''2'')]), (''b'', File ''3''),
               (''specific'', Dir [(''u'', File ''user'')])] ''specific''"
  using main_full_run_entries
    [of "\<lparr>directory1 = Some (Dir [(''a'', Dir [(''x'', File ''1'')]), (''c'', Dir [])]),
               directory2 = Some (Dir [(''a'', Dir [(''y'', File ''2'')]), (''b'', File ''3''),
                                       (''specific'', Dir [(''u'', File ''user'')])]),
               stdout = []\<rparr>"
        "[(''a'', Dir [(''x'', File ''1'')]), (''c'', Dir [])]"
        "[(''a'', Dir [(''y'', File ''2'')]), (''b'', File ''3''),
          (''specific'', Dir [(''u'', File ''user'')])]"
        "\<lparr>directory1 = Some (Dir [(''a'', Dir [(''x'', File ''1'')]), (''c'', Dir [])]),
            directory2 = Some (Dir [(''specific'', Dir [(''u'', File ''user'')]),
                                    (''a'', Dir [(''x'', File ''1'')]), (''c'', Dir [])]),
            stdout = []\<rparr>"]
  by (simp add: script_defs)

text \<open>
  The claim as stated fails on the path that prints and returns: the destination
  keeps an \<^verbatim>\<open>a\<close> that differs from the source's, and a \<^verbatim>\<open>b\<close> the source does
  not have.
\<close>

theorem main_no_action_differs_counterexample:
  "main \<lparr>directory1 = Some (Dir [(''a'', Dir [(''x'', File ''1'')])]),
         directory2 = Some (Dir [(''a'', Dir [(''y'', File ''2'')]), (''b'', File ''3'')]),
         stdout = []\<rparr>
     = Inr \<lparr>directory1 = Some (Dir [(''a'', Dir [(''x'', File ''1'')])]),
            directory2 = Some (Dir [(''a'', Dir [(''y'', File ''2'')]), (''b'', File ''3'')]),
            stdout = [no_action_needed]\<rparr>
   \<and> ''a'' \<in> set (map fst [(''a'', Dir [(''y'', File ''2'')]), (''b'', File ''3'')])
   \<and> map_of [(''a'', Dir [(''y'', File ''2'')]), (''b'', File ''3'')] ''a''
       \<noteq> map_of [(''a'', Dir [(''x'', File ''1'')])] ''a''
   \<and> ''b'' \<in> set (map fst [(''a'', Dir [(''y'', File ''2'')]), (''b'', File ''3'')])
   \<and> map_of [(''a'', Dir [(''x'', File ''1'')])] ''b'' = None"
  by (simp add: script_defs)





text \<open>
  Claim C9. \<^verbatim>\<open>main\<close> raises an exception exactly when one of its library calls
  raises it, all the calls before it having returned: the listing of
  \<^verbatim>\<open>directory1\<close> or of \<^verbatim>\<open>directory2\<close> by the comparison (a path that is missing
  or not a directory), a \<^verbatim>\<open>shutil.rmtree\<close> or \<^verbatim>\<open>os.remove\<close> of the clearing
  loop, or a \<^verbatim>\<open>shutil.copytree\<close> or \<^verbatim>\<open>shutil.copy2\<close> of the copying loop. The
  exception that leaves \<^verbatim>\<open>main\<close> is the one the call raised.
\<close>

theorem main_raises_iff:
  "(\<exists>fs'. main fs = Inl (e, fs')) \<longleftrightarrow>
     listdir (directory1 fs) = Inl e
   \<or> (\<exists>names. listdir (directory1 fs) = Inr names) \<and> listdir (directory2 fs) = Inl e
   \<or> (\<exists>names items. listdir (directory1 fs) = Inr names \<and> listdir (directory2 fs) = Inr items
        \<and> dircmp_left_only (directory1 fs) (directory2 fs) \<noteq> Inr []
        \<and> ((\<exists>pre item post es. items = pre @ item # post
                \<and> for_each clear_body pre (contents (directory2 fs)) = Inr es
                \<and> item \<noteq> ''specific'' \<and> path_exists (map_of es item)
                \<and> (if path_isdir (map_of es item) then shutil_rmtree item es = Inl e
                    else os_remove item es = Inl e))
           \<or> (\<exists>c pre item post dst.
                for_each clear_body items (contents (directory2 fs)) = Inr c
                \<and> names = pre @ item # post
                \<and> for_each (copytree_body (contents (directory1 fs))) pre c = Inr dst
                \<and> (if path_isdir (map_of (contents (directory1 fs)) item)
                    then item \<noteq> ''specific''
                      \<and> (\<exists>dst'. shutil_copytree (map_of (contents (directory1 fs)) item) item dst
                                  = Inl (e, dst'))
                    else shutil_copy2 (map_of (contents (directory1 fs)) item) item dst = Inl e))))"
proof (cases "listdir (directory1 fs)")
  case (Inl e1)
  then have "main fs = Inl (e1, fs)" by (simp add: main_def dircmp_left_only_def)
  with Inl show ?thesis by auto
next
  case names: (Inr names)
  show ?thesis
  proof (cases "listdir (directory2 fs)")
    case (Inl e2)
    with names have "main fs = Inl (e2, fs)" by (simp add: main_def dircmp_left_only_def)
    with Inl names show ?thesis by auto
  next
    case items: (Inr items)
    show ?thesis
    proof (cases "dircmp_left_only (directory1 fs) (directory2 fs) = Inr []")
      case True
      then have "main fs = Inr (fs\<lparr>stdout := stdout fs @ [no_action_needed]\<rparr>)"
        by (rule main_left_only_empty)
      with True names items show ?thesis by simp
    next
      case False
      have "(\<exists>fs'. main fs = Inl (e, fs')) \<longleftrightarrow>
          (\<exists>pre item post es. items = pre @ item # post
                \<and> for_each clear_body pre (contents (directory2 fs)) = Inr es
                \<and> item \<noteq> ''specific'' \<and> path_exists (map_of es item)
                \<and> (if path_isdir (map_of es item) then shutil_rmtree item es = Inl e
                    else os_remove item es = Inl e))
           \<or> (\<exists>c pre item post dst.
                for_each clear_body items (contents (directory2 fs)) = Inr c
                \<and> names = pre @ item # post
                \<and> for_each (copytree_body (contents (directory1 fs))) pre c = Inr dst
                \<and> (if path_isdir (map_of (contents (directory1 fs)) item)
                    then item \<noteq> ''specific''
                      \<and> (\<exists>dst'. shutil_copytree (map_of (contents (directory1 fs)) item) item dst
                                  = Inl (e, dst'))
                    else shutil_copy2 (map_of (contents (directory1 fs)) item) item dst = Inl e))"
        unfolding main_raises_split [OF names items False] for_each_raises_ex
          clear_body_raises copytree_body_raises
        by blast
      with names items False show ?thesis by simp
    qed
  qed
qed

theorem main_raises_iff_witness:
  "listdir (directory1 \<lparr>directory1 = None, directory2 = Some (Dir []), stdout = []\<rparr>)
     = Inl FileNotFoundError
   \<and> main \<lparr>directory1 = None, directory2 = Some (Dir []), stdout = []\<rparr>
     = Inl (FileNotFoundError, \<lparr>directory1 = None, directory2 = Some (Dir []), stdout = []\<rparr>)
   \<and> (\<exists>fs'. main \<lparr>directory1 = Some (Dir [(''a'', Dir [])]),
                  directory2 = Some (Dir [(''l'', Symlink (Some (Dir [])))]), stdout = []\<rparr>
             = Inl (OSError, fs'))
   \<and> shutil_rmtree ''l'' [(''l'', Symlink (Some (Dir [])))] = Inl OSError"
  using main_raises_iff [of "\<lparr>directory1 = None, directory2 = Some (Dir []), stdout = []\<rparr>"
      FileNotFoundError]
    main_raises_iff [of "\<lparr>directory1 = Some (Dir [(''a'', Dir [])]),
                  directory2 = Some (Dir [(''l'', Symlink (Some (Dir [])))]), stdout = []\<rparr>" OSError]
  by (simp add: script_defs)


text \<open>
  Claim C10. In the clearing loop, whether it ends or raises: an entry for which
  \<^verbatim>\<open>os.path.exists\<close> answers False (a dangling link) is left as it is, as is the
  entry \<^verbatim>\<open>specific\<close>; and an entry that is no longer what it was has been removed,
  was one of the listed names other than \<^verbatim>\<open>specific\<close>, and existed.
\<close>

theorem clear_removes_only_existing:
  "(item = ''specific'' \<or> \<not> path_exists (map_of es item) \<longrightarrow>
      map_of (after (for_each clear_body items es)) item = map_of es item)
   \<and> (map_of (after (for_each clear_body items es)) item \<noteq> map_of es item \<longrightarrow>
        item \<in> set items \<and> item \<noteq> ''specific'' \<and> path_exists (map_of es item)
        \<and> map_of (after (for_each clear_body items es)) item = None)"
proof -
  have "map_of (after (for_each clear_body items es)) item = map_of es item
      \<or> (item \<in> set items \<and> item \<noteq> ''specific'' \<and> path_exists (map_of es item)
          \<and> map_of (after (for_each clear_body items es)) item = None)"
  proof (rule for_each_invariant
      [where I = "\<lambda>st. map_of st item = map_of es item
        \<or> (item \<in> set items \<and> item \<noteq> ''specific'' \<and> path_exists (map_of es item)
            \<and> map_of st item = None)"])
    fix x st
    assume x: "x \<in> set items"
      and st: "map_of st item = map_of es item
        \<or> (item \<in> set items \<and> item \<noteq> ''specific'' \<and> path_exists (map_of es item)
            \<and> map_of st item = None)"
    from clear_body_after [of x st]
    show "map_of (after (clear_body x st)) item = map_of es item
        \<or> (item \<in> set items \<and> item \<noteq> ''specific'' \<and> path_exists (map_of es item)
            \<and> map_of (after (clear_body x st)) item = None)"
    proof
      assume "after (clear_body x st) = st"
      with st show ?thesis by simp
    next
      assume d: "x \<noteq> ''specific'' \<and> path_exists (map_of st x)
        \<and> after (clear_body x st) = AList.delete x st"
      show ?thesis
      proof (cases "x = item")
        case True
        with d have n: "map_of (after (clear_body x st)) item = None"
          by (simp add: delete_conv')
        from st show ?thesis
        proof
          assume "map_of st item = map_of es item"
          with d True x n show ?thesis by simp
        next
          assume "item \<in> set items \<and> item \<noteq> ''specific'' \<and> path_exists (map_of es item)
            \<and> map_of st item = None"
          with n show ?thesis by simp
        qed
      next
        case False
        with d have "map_of (after (clear_body x st)) item = map_of st item"
          by (simp add: delete_conv')
        with st show ?thesis by simp
      qed
    qed
  qed simp
  then show ?thesis using clear_survives [of item es items] by auto
qed

theorem clear_removes_only_existing_witness:
  "\<not> path_exists (map_of [(''a'', Dir []), (''l'', Symlink None), (''f'', File ''1'')] ''l'')
   \<and> after (for_each clear_body [''a'', ''l'', ''f'']
        [(''a'', Dir []), (''l'', Symlink None), (''f'', File ''1'')]) = [(''l'', Symlink None)]
   \<and> map_of (after (for_each clear_body [''a'', ''l'', ''f'']
        [(''a'', Dir []), (''l'', Symlink None), (''f'', File ''1'')])) ''l''
     = map_of [(''a'', Dir []), (''l'', Symlink None), (''f'', File ''1'')] ''l''
   \<and> path_exists (map_of [(''a'', Dir []), (''l'', Symlink None), (''f'', File ''1'')] ''a'')
   \<and> map_of (after (for_each clear_body [''a'', ''l'', ''f'']
        [(''a'', Dir []), (''l'', Symlink None), (''f'', File ''1'')])) ''a'' = None"
  using clear_removes_only_existing [of "''l''" "[(''a'', Dir []), (''l'', Symlink None), (''f'', File ''1'')]"
      "[''a'', ''l'', ''f'']"]
    clear_removes_only_existing [of "''a''" "[(''a'', Dir []), (''l'', Symlink None), (''f'', File ''1'')]"
      "[''a'', ''l'', ''f'']"]
  by (simp add: script_defs after_def)

end
